theory Spec2Isabelle
  imports Main "HOL-Library.Multiset"
begin

text \<open>
  The search core of the movie catalogue (\<open>src/lib/data-utils.ts\<close>): \<open>parseUserQuery\<close>
  turns a free-text query into a filter set, \<open>filterMovies\<close> filters a list of records by
  a filter set, and \<open>searchMovies\<close> answers a query over a list of records.
\<close>

section \<open>Strings\<close>

text \<open>
  A JavaScript string is modelled as a list of characters. The model covers ASCII text:
  \<open>toLowerCase\<close> maps \<open>A\<close>..\<open>Z\<close> to \<open>a\<close>..\<open>z\<close> and leaves every other character alone,
  and white space (what \<open>trim\<close> strips and the pattern class \<open>\s\<close> accepts) is the
  ASCII white space: tab, line feed, vertical tab, form feed, carriage return and space.
\<close>

definition upperLetters :: string where
  "upperLetters = ''ABCDEFGHIJKLMNOPQRSTUVWXYZ''"

definition lowerLetters :: string where
  "lowerLetters = ''abcdefghijklmnopqrstuvwxyz''"

definition isUpper :: "char \<Rightarrow> bool" where
  "isUpper c = (c \<in> set upperLetters)"

definition isLower :: "char \<Rightarrow> bool" where
  "isLower c = (c \<in> set lowerLetters)"

definition isDigit :: "char \<Rightarrow> bool" where
  "isDigit c = (c \<in> set ''0123456789'')"

definition isSpace :: "char \<Rightarrow> bool" where
  "isSpace c = (c \<in> set [CHR 0x09, CHR 0x0A, CHR 0x0B, CHR 0x0C, CHR 0x0D, CHR 0x20])"

definition isQuote :: "char \<Rightarrow> bool" where
  "isQuote c = (c = CHR 0x22 \<or> c = CHR 0x27)"

definition isAlphaSpace :: "char \<Rightarrow> bool" where
  "isAlphaSpace c = (isLower c \<or> isUpper c \<or> isSpace c)"

definition isAlnumSpace :: "char \<Rightarrow> bool" where
  "isAlnumSpace c = (isLower c \<or> isUpper c \<or> isDigit c \<or> isSpace c)"

definition lowerChar :: "char \<Rightarrow> char" where
  "lowerChar c = (case map_of (zip upperLetters lowerLetters) c of Some d \<Rightarrow> d | None \<Rightarrow> c)"

definition toLowerCase :: "string \<Rightarrow> string" where
  "toLowerCase s = map lowerChar s"

definition trim :: "string \<Rightarrow> string" where
  "trim s = rev (dropWhile isSpace (rev (dropWhile isSpace s)))"

text \<open>\<open>s.includes(v)\<close>: \<open>v\<close> occurs in \<open>s\<close> as a contiguous run.\<close>

fun startsWith :: "string \<Rightarrow> string \<Rightarrow> bool" where
  "startsWith s [] = True"
| "startsWith [] (y # ys) = False"
| "startsWith (x # xs) (y # ys) = (x = y \<and> startsWith xs ys)"

fun jsIncludes :: "string \<Rightarrow> string \<Rightarrow> bool" where
  "jsIncludes [] v = (v = [])"
| "jsIncludes (x # xs) v = (startsWith (x # xs) v \<or> jsIncludes xs v)"

text \<open>\<open>s.split(c)\<close> for a one-character separator: never empty, \<open>"".split("|")\<close> is \<open>[""]\<close>.\<close>

fun split :: "char \<Rightarrow> string \<Rightarrow> string list" where
  "split c [] = [[]]"
| "split c (x # xs) =
     (if x = c then [] # split c xs
      else (case split c xs of [] \<Rightarrow> [[x]] | h # t \<Rightarrow> (x # h) # t))"

section \<open>Regular expressions\<close>

text \<open>
  The patterns of \<open>parseUserQuery\<close> are written in a small pattern language with the
  backtracking semantics of JavaScript's \<open>RegExp\<close>: alternatives are tried left to
  right, the quantifiers \<open>?\<close>, \<open>*\<close> and \<open>+\<close> are greedy, and the first way of matching
  that succeeds is the match. All patterns carry the flag \<open>i\<close>, so a literal is compared
  ignoring case. Only character classes are starred in the source, and each pattern
  has one capturing group.
\<close>

datatype regex =
    Lit string
  | Cls "char \<Rightarrow> bool"
  | Seq regex regex
  | Alt regex regex
  | Opt regex
  | Star "char \<Rightarrow> bool"
  | Plus "char \<Rightarrow> bool"
  | Grp regex

text \<open>
  A matcher state is the capture of group 1 so far and the input still to read.
  \<open>run r st\<close> lists every way \<open>r\<close> can match at the front of the input, in the order in
  which the backtracking matcher tries them.
\<close>

type_synonym mstate = "string option \<times> string"

text \<open>
  A literal is matched character by character, ignoring case; the result is the input
  after the literal.
\<close>

fun matchLit :: "string \<Rightarrow> string \<Rightarrow> string option" where
  "matchLit [] s = Some s"
| "matchLit (x # xs) [] = None"
| "matchLit (x # xs) (y # ys) = (if lowerChar x = lowerChar y then matchLit xs ys else None)"

fun run :: "regex \<Rightarrow> mstate \<Rightarrow> mstate list" where
  "run (Lit l) (c, s) = (case matchLit l s of None \<Rightarrow> [] | Some r \<Rightarrow> [(c, r)])"
| "run (Cls p) (c, s) = (case s of [] \<Rightarrow> [] | x # xs \<Rightarrow> if p x then [(c, xs)] else [])"
| "run (Seq a b) st = concat (map (run b) (run a st))"
| "run (Alt a b) st = run a st @ run b st"
| "run (Opt a) st = run a st @ [st]"
| "run (Star p) (c, s) = map (\<lambda>k. (c, drop k s)) (rev [0..<Suc (length (takeWhile p s))])"
| "run (Plus p) (c, s) = map (\<lambda>k. (c, drop k s)) (rev [1..<Suc (length (takeWhile p s))])"
| "run (Grp a) (c, s) =
     map (\<lambda>(c', r). (Some (take (length s - length r) s), r)) (run a (c, s))"

text \<open>
  \<open>query.match(re)\<close> for a pattern without the flag \<open>g\<close>: the match at the leftmost
  position where one exists, or \<open>null\<close>. The result is reduced to what the callers
  read, element 1 of the match array (the capture of group 1).
\<close>

fun jsMatch :: "regex \<Rightarrow> string \<Rightarrow> string option option" where
  "jsMatch re [] = (case run re (None, []) of [] \<Rightarrow> None | (c, r) # _ \<Rightarrow> Some c)"
| "jsMatch re (x # xs) =
     (case run re (None, x # xs) of [] \<Rightarrow> jsMatch re xs | (c, r) # _ \<Rightarrow> Some c)"

section \<open>Movie records and filter sets\<close>

text \<open>
  A JavaScript number, as far as this code observes it: whether it is falsy and what
  \<open>String\<close> makes of it. \<open>JInt n\<close> is an integral value (printed in decimal, falsy when
  zero), \<open>JNaN\<close> is NaN, and \<open>JOther s\<close> is any other number (a fraction, an infinity),
  which is truthy and is carried by its printed form \<open>s\<close>.
\<close>

datatype jsnumber = JInt int | JNaN | JOther string

record movie =
  movie_id :: string
  movie_name :: string
  movie_duration :: jsnumber
  plot_keyword :: string
  language :: string
  country :: string
  budget :: jsnumber
  release_year :: jsnumber
  imdb_score :: jsnumber
  movie_certification :: string
  genre :: string
  producer_name :: string
  award_name :: string
  director_name :: string
  actors :: string
  reviewer_name :: string
  songs :: string
  poster_url :: "string option"

text \<open>The keys of a movie record (\<open>keyof MovieData\<close>).\<close>

datatype movieKey =
    F_movie_id | F_movie_name | F_movie_duration | F_plot_keyword | F_language
  | F_country | F_budget | F_release_year | F_imdb_score | F_movie_certification
  | F_genre | F_producer_name | F_award_name | F_director_name | F_actors
  | F_reviewer_name | F_songs | F_poster_url

datatype jsvalue = JString string | JNumber jsnumber

text \<open>\<open>movie[key]\<close>; \<open>None\<close> is \<open>undefined\<close>.\<close>

fun getField :: "movie \<Rightarrow> movieKey \<Rightarrow> jsvalue option" where
  "getField m F_movie_id = Some (JString (movie_id m))"
| "getField m F_movie_name = Some (JString (movie_name m))"
| "getField m F_movie_duration = Some (JNumber (movie_duration m))"
| "getField m F_plot_keyword = Some (JString (plot_keyword m))"
| "getField m F_language = Some (JString (language m))"
| "getField m F_country = Some (JString (country m))"
| "getField m F_budget = Some (JNumber (budget m))"
| "getField m F_release_year = Some (JNumber (release_year m))"
| "getField m F_imdb_score = Some (JNumber (imdb_score m))"
| "getField m F_movie_certification = Some (JString (movie_certification m))"
| "getField m F_genre = Some (JString (genre m))"
| "getField m F_producer_name = Some (JString (producer_name m))"
| "getField m F_award_name = Some (JString (award_name m))"
| "getField m F_director_name = Some (JString (director_name m))"
| "getField m F_actors = Some (JString (actors m))"
| "getField m F_reviewer_name = Some (JString (reviewer_name m))"
| "getField m F_songs = Some (JString (songs m))"
| "getField m F_poster_url = map_option JString (poster_url m)"

text \<open>Decimal digits of a natural number, and \<open>String(v)\<close>.\<close>

fun showNat :: "nat \<Rightarrow> string" where
  "showNat n =
     (if n < 10 then [''0123456789'' ! n]
      else showNat (n div 10) @ [''0123456789'' ! (n mod 10)])"

declare showNat.simps [simp del]

definition showInt :: "int \<Rightarrow> string" where
  "showInt i = (if i < 0 then CHR ''-'' # showNat (nat (- i)) else showNat (nat i))"

fun numberToString :: "jsnumber \<Rightarrow> string" where
  "numberToString (JInt i) = showInt i"
| "numberToString JNaN = ''NaN''"
| "numberToString (JOther s) = s"

fun String :: "jsvalue \<Rightarrow> string" where
  "String (JString s) = s"
| "String (JNumber n) = numberToString n"

text \<open>\<open>!v\<close> on a value: the empty string, zero and NaN are falsy.\<close>

fun falsy :: "jsvalue \<Rightarrow> bool" where
  "falsy (JString s) = (s = [])"
| "falsy (JNumber (JInt i)) = (i = 0)"
| "falsy (JNumber JNaN) = True"
| "falsy (JNumber (JOther s)) = False"

text \<open>
  A filter set (\<open>Partial<Record<keyof MovieData, string>>\<close>) is the list of its entries
  in insertion order, which is the order of \<open>Object.entries\<close>. \<open>setKey\<close> is the
  assignment \<open>filters.k = v\<close>, \<open>getKey\<close> the read \<open>filters.k\<close> (\<open>None\<close> is
  \<open>undefined\<close>) and \<open>deleteKey\<close> is \<open>delete filters.k\<close>.
\<close>

type_synonym filterSet = "(movieKey \<times> string) list"

fun setKey :: "movieKey \<Rightarrow> string \<Rightarrow> filterSet \<Rightarrow> filterSet" where
  "setKey k v [] = [(k, v)]"
| "setKey k v ((k', v') # fs) = (if k' = k then (k, v) # fs else (k', v') # setKey k v fs)"

definition getKey :: "filterSet \<Rightarrow> movieKey \<Rightarrow> string option" where
  "getKey fs k = map_of fs k"

definition deleteKey :: "movieKey \<Rightarrow> filterSet \<Rightarrow> filterSet" where
  "deleteKey k fs = filter (\<lambda>e. fst e \<noteq> k) fs"

section \<open>parseUserQuery\<close>

text \<open>An alternation of literals, \<open>w1|w2|...\<close>, tried from left to right.\<close>

fun anyOf :: "string list \<Rightarrow> regex" where
  "anyOf [] = Cls (\<lambda>c. False)"
| "anyOf [w] = Lit w"
| "anyOf (w # v # vs) = Alt (Lit w) (anyOf (v # vs))"

text \<open>\<open>\s*\<close> and \<open>["']?\<close>.\<close>

definition ws :: regex where "ws = Star isSpace"
definition quote :: regex where "quote = Opt (Cls isQuote)"

text \<open>
  Seven of the eight patterns have one shape: trigger, white space, optional connector,
  white space, optional quote, captured run, optional quote. In the source:
  \<^item> genre: \<^verbatim>\<open>/genre(?:s)?\s*(?:is|are|=|:)?\s*["']?([a-zA-Z\s]+)["']?/i\<close>
  \<^item> title: \<^verbatim>\<open>/(?:movie|film|title)\s*(?:name|called|titled|is|=|:)?\s*["']?([a-zA-Z0-9\s]+)["']?/i\<close>
  \<^item> director: \<^verbatim>\<open>/director\s*(?:is|=|:)?\s*["']?([a-zA-Z\s]+)["']?/i\<close>
  \<^item> actor: \<^verbatim>\<open>/(?:actor|star|cast)\s*(?:is|=|:)?\s*["']?([a-zA-Z\s]+)["']?/i\<close>
  \<^item> year: \<^verbatim>\<open>/(?:year|released|from)\s*(?:in|=|:)?\s*(\d{4})/i\<close>
  \<^item> country: \<^verbatim>\<open>/(?:country|from)\s*(?:is|=|:)?\s*["']?([a-zA-Z\s]+)["']?/i\<close>
  \<^item> language: \<^verbatim>\<open>/(?:language|in)\s*(?:is|=|:)?\s*["']?([a-zA-Z\s]+)["']?/i\<close>
  \<^item> keyword: \<^verbatim>\<open>/(?:keyword|about|plot|theme)\s*(?:is|=|:)?\s*["']?([a-zA-Z\s]+)["']?/i\<close>
\<close>

definition pattern :: "regex \<Rightarrow> string list \<Rightarrow> regex \<Rightarrow> regex" where
  "pattern trigger conns cap =
     Seq trigger (Seq ws (Seq (Opt (anyOf conns)) (Seq ws (Seq quote (Seq (Grp cap) quote)))))"

definition genreRe :: regex where
  "genreRe = pattern (Seq (Lit ''genre'') (Opt (Lit ''s''))) [''is'', ''are'', ''='', '':'']
     (Plus isAlphaSpace)"

definition titleRe :: regex where
  "titleRe = pattern (anyOf [''movie'', ''film'', ''title''])
     [''name'', ''called'', ''titled'', ''is'', ''='', '':''] (Plus isAlnumSpace)"

definition directorRe :: regex where
  "directorRe = pattern (Lit ''director'') [''is'', ''='', '':''] (Plus isAlphaSpace)"

definition actorRe :: regex where
  "actorRe = pattern (anyOf [''actor'', ''star'', ''cast'']) [''is'', ''='', '':'']
     (Plus isAlphaSpace)"

definition yearRe :: regex where
  "yearRe = Seq (anyOf [''year'', ''released'', ''from''])
     (Seq ws (Seq (Opt (anyOf [''in'', ''='', '':''])) (Seq ws
       (Grp (Seq (Cls isDigit) (Seq (Cls isDigit) (Seq (Cls isDigit) (Cls isDigit))))))))"

definition countryRe :: regex where
  "countryRe = pattern (anyOf [''country'', ''from'']) [''is'', ''='', '':'']
     (Plus isAlphaSpace)"

definition languageRe :: regex where
  "languageRe = pattern (anyOf [''language'', ''in'']) [''is'', ''='', '':'']
     (Plus isAlphaSpace)"

definition keywordRe :: regex where
  "keywordRe = pattern (anyOf [''keyword'', ''about'', ''plot'', ''theme''])
     [''is'', ''='', '':''] (Plus isAlphaSpace)"

text \<open>
  One extractor: \<open>const m = query.match(re); if (m && m[1]) filters.k = m[1].trim()\<close>.
  \<open>extractValue\<close> is the value the extractor stores, if it stores one.
\<close>

definition extractValue :: "regex \<Rightarrow> string \<Rightarrow> string option" where
  "extractValue re query =
     (case jsMatch re query of
        Some (Some g) \<Rightarrow> if g \<noteq> [] then Some (trim g) else None
      | _ \<Rightarrow> None)"

definition applyExtractor :: "regex \<Rightarrow> movieKey \<Rightarrow> string \<Rightarrow> filterSet \<Rightarrow> filterSet" where
  "applyExtractor re k query filters =
     (case extractValue re query of Some v \<Rightarrow> setKey k v filters | None \<Rightarrow> filters)"

definition commonGenres :: "string list" where
  "commonGenres = [''action'', ''comedy'', ''drama'', ''horror'', ''sci-fi'', ''thriller'',
     ''romance'', ''adventure'', ''fantasy'']"

text \<open>The eight extractors, in the order of the source.\<close>

definition extractors :: "string \<Rightarrow> filterSet" where
  "extractors query =
     (let filters = [];
          filters = applyExtractor genreRe F_genre query filters;
          filters = applyExtractor titleRe F_movie_name query filters;
          filters = applyExtractor directorRe F_director_name query filters;
          filters = applyExtractor actorRe F_actors query filters;
          filters = applyExtractor yearRe F_release_year query filters;
          filters = applyExtractor countryRe F_country query filters;
          filters = applyExtractor languageRe F_language query filters;
          filters = applyExtractor keywordRe F_plot_keyword query filters
      in filters)"

text \<open>
  After the extractors, the fallback: with no entry so far and a query that is not
  blank, the trimmed query becomes a genre filter if it contains a common genre word
  and a title filter otherwise.
\<close>

definition parseUserQuery :: "string \<Rightarrow> filterSet" where
  "parseUserQuery query =
     (let filters = extractors query in
      if length filters = 0 \<and> trim query \<noteq> [] then
        (let searchTerm = trim query in
         if list_ex (\<lambda>g. jsIncludes (toLowerCase searchTerm) g) commonGenres
         then setKey F_genre searchTerm filters
         else setKey F_movie_name searchTerm filters)
      else filters)"

section \<open>filterMovies\<close>

text \<open>The test that \<open>filterMovies\<close> applies to one entry of the filter set.\<close>

definition matchesFilter :: "movie \<Rightarrow> movieKey \<times> string \<Rightarrow> bool" where
  "matchesFilter movie e =
     (let key = fst e; value = snd e in
      if value = [] then True
      else (case getField movie key of
              None \<Rightarrow> False
            | Some movieValue \<Rightarrow>
                if key = F_genre \<or> key = F_plot_keyword then
                  list_ex (\<lambda>v. jsIncludes v (toLowerCase value))
                    (split (CHR ''|'') (toLowerCase (String movieValue)))
                else jsIncludes (toLowerCase (String movieValue)) (toLowerCase value)))"

definition filterMovies :: "movie list \<Rightarrow> filterSet \<Rightarrow> movie list" where
  "filterMovies movies filters =
     filter (\<lambda>movie. list_all (matchesFilter movie) filters) movies"

section \<open>searchMovies\<close>

text \<open>
  The test of the actor branch for the entries other than \<open>actors\<close>. It differs from
  \<open>matchesFilter\<close> in one place: it rejects a falsy field value (\<open>!movieValue\<close>), not
  only \<open>undefined\<close>.
\<close>

definition matchesOtherFilter :: "movie \<Rightarrow> movieKey \<times> string \<Rightarrow> bool" where
  "matchesOtherFilter movie e =
     (let key = fst e; value = snd e in
      if value = [] then True
      else (case getField movie key of
              None \<Rightarrow> False
            | Some movieValue \<Rightarrow>
                if falsy movieValue then False
                else if key = F_genre \<or> key = F_plot_keyword then
                  list_ex (\<lambda>v. jsIncludes v (toLowerCase value))
                    (split (CHR ''|'') (toLowerCase (String movieValue)))
                else jsIncludes (toLowerCase (String movieValue)) (toLowerCase value)))"

text \<open>The comparison function of the title branch; \<open>t\<close> is \<open>filters.movie_name\<close>.\<close>

definition relevance :: "string \<Rightarrow> movie \<Rightarrow> movie \<Rightarrow> int" where
  "relevance t a b =
     (let aExact = (toLowerCase (movie_name a) = toLowerCase t);
          bExact = (toLowerCase (movie_name b) = toLowerCase t)
      in if aExact \<and> \<not> bExact then - 1
         else if \<not> aExact \<and> bExact then 1
         else int (length (movie_name a)) - int (length (movie_name b)))"

text \<open>
  \<open>Array.prototype.sort\<close> with a comparison function is a stable sort: an element goes
  before the first one it does not compare greater than, so elements that compare equal
  keep their order.
\<close>

fun insertBy :: "('a \<Rightarrow> 'a \<Rightarrow> int) \<Rightarrow> 'a \<Rightarrow> 'a list \<Rightarrow> 'a list" where
  "insertBy cmp x [] = [x]"
| "insertBy cmp x (y # ys) = (if cmp x y \<le> 0 then x # y # ys else y # insertBy cmp x ys)"

definition jsSort :: "('a \<Rightarrow> 'a \<Rightarrow> int) \<Rightarrow> 'a list \<Rightarrow> 'a list" where
  "jsSort cmp xs = foldr (insertBy cmp) xs []"

definition searchMovies :: "movie list \<Rightarrow> string \<Rightarrow> movie list" where
  "searchMovies movies query =
     (case find (\<lambda>movie. toLowerCase (movie_name movie) = toLowerCase query) movies of
        Some exactMatch \<Rightarrow> [exactMatch]
      | None \<Rightarrow>
          (let filters = parseUserQuery query in
           if (case getKey filters F_actors of None \<Rightarrow> False | Some a \<Rightarrow> a \<noteq> []) then
             (let actorName = the (getKey filters F_actors);
                  others = deleteKey F_actors filters
              in filter (\<lambda>movie.
                   if \<not> list_all (matchesOtherFilter movie) others then False
                   else jsIncludes (toLowerCase (actors movie)) (toLowerCase actorName)) movies)
           else if (case getKey filters F_movie_name of None \<Rightarrow> False | Some t \<Rightarrow> t \<noteq> [])
                   \<and> length filters = 1 then
             (let t = the (getKey filters F_movie_name)
              in jsSort (relevance t)
                   (filter (\<lambda>movie. jsIncludes (toLowerCase (movie_name movie)) (toLowerCase t))
                      movies))
           else filterMovies movies filters))"

section \<open>The properties, in the words of the specification\<close>

text \<open>\<open>v\<close> occurs in \<open>s\<close> as a contiguous run, ignoring case.\<close>

definition isSubstring :: "string \<Rightarrow> string \<Rightarrow> bool" where
  "isSubstring v s = (\<exists>p t. s = p @ v @ t)"

definition containsIgnoringCase :: "string \<Rightarrow> string \<Rightarrow> bool" where
  "containsIgnoringCase s v = isSubstring (toLowerCase v) (toLowerCase s)"

text \<open>
  The Field Matching Rule: an empty expected value always matches; otherwise a field
  that the record does not have never matches, a multi-value field (genre,
  plot_keyword) matches when one of its pipe-delimited elements contains the value,
  and any other field matches when its printed value contains the value; all
  comparisons ignore case.
\<close>

definition fieldMatchingRule :: "movie \<Rightarrow> movieKey \<Rightarrow> string \<Rightarrow> bool" where
  "fieldMatchingRule m f v =
     (v = [] \<or>
      (case getField m f of
         None \<Rightarrow> False
       | Some x \<Rightarrow>
           if f = F_genre \<or> f = F_plot_keyword
           then list_ex (isSubstring (toLowerCase v)) (split (CHR ''|'') (toLowerCase (String x)))
           else containsIgnoringCase (String x) v))"

definition satisfiesAll :: "movie \<Rightarrow> filterSet \<Rightarrow> bool" where
  "satisfiesAll m F = list_all (\<lambda>e. fieldMatchingRule m (fst e) (snd e)) F"

text \<open>
  The ranking of the title branch: a title equal to \<open>t\<close> (ignoring case) never comes
  after one that is not, and within the same class a title never comes after a shorter one.
\<close>

definition exactTitle :: "string \<Rightarrow> movie \<Rightarrow> bool" where
  "exactTitle t m = (toLowerCase (movie_name m) = toLowerCase t)"

definition rankedBefore :: "string \<Rightarrow> movie \<Rightarrow> movie \<Rightarrow> bool" where
  "rankedBefore t a b =
     (if exactTitle t a = exactTitle t b then length (movie_name a) \<le> length (movie_name b)
      else exactTitle t a)"

definition titleRanked :: "string \<Rightarrow> movie list \<Rightarrow> bool" where
  "titleRanked t ms = sorted_wrt (rankedBefore t) ms"

section \<open>Example records\<close>

definition exampleMovie :: "string \<Rightarrow> string \<Rightarrow> string \<Rightarrow> int \<Rightarrow> movie" where
  "exampleMovie title genres cast year =
     \<lparr> movie_id = ''1'', movie_name = title, movie_duration = JInt 120,
       plot_keyword = ''dream|heist'', language = ''English'', country = ''USA'',
       budget = JInt 1000000, release_year = JInt year, imdb_score = JOther ''8.8'',
       movie_certification = ''PG-13'', genre = genres, producer_name = ''Emma Thomas'',
       award_name = ''Oscar'', director_name = ''Christopher Nolan'', actors = cast,
       reviewer_name = ''Roger Ebert'', songs = ''Time'', poster_url = None \<rparr>"

definition movieInception :: movie where
  "movieInception = exampleMovie ''Inception'' ''Action|Sci-Fi'' ''Leonardo DiCaprio'' 2010"

definition movieINCEPTION :: movie where
  "movieINCEPTION = exampleMovie ''INCEPTION'' ''Drama'' ''Elliot Page'' 2011"

definition movieDreams :: movie where
  "movieDreams = exampleMovie ''Inception Dreams'' ''Documentary'' ''Tom Hardy'' 2012"

definition movieMatrix :: movie where
  "movieMatrix = exampleMovie ''Matrix'' ''Action|Sci-Fi'' ''Keanu Reeves'' 1999"

definition movieReloaded :: movie where
  "movieReloaded = exampleMovie ''The Matrix Reloaded'' ''Action|Sci-Fi'' ''Keanu Reeves'' 2003"

definition movieBB :: movie where
  "movieBB = exampleMovie ''bb'' ''Drama'' ''Tom Hanks'' 1994"

definition movieA :: movie where
  "movieA = exampleMovie ''a'' ''Comedy'' ''Meg Ryan'' 1998"

definition movieCrime :: movie where
  "movieCrime = exampleMovie ''Heat'' ''Action|Crime|Drama'' ''Al Pacino|Robert De Niro'' 1995"

definition movieHanks :: movie where
  "movieHanks = exampleMovie ''Cast Away'' ''Adventure|Drama'' ''Tom Hanks|Helen Hunt'' 2000"

definition movieZero :: movie where
  "movieZero = exampleMovie ''Big'' ''Comedy'' ''Tom Hanks'' 0"

section \<open>The matcher on examples\<close>

text \<open>
  A connector is given up when nothing is left to capture after it, and the country
  pattern, which shares the trigger \<open>from\<close> with the year pattern, captures the blank
  before the digits.
\<close>

lemma extractValue_examples:
  "extractValue genreRe ''genre is action'' = Some ''action''"
  "extractValue genreRe ''genre is'' = Some ''is''"
  "extractValue yearRe ''movies from 1999'' = Some ''1999''"
  "extractValue countryRe ''movies from 1999'' = Some []"
  by code_simp+

section \<open>Substrings\<close>

lemma startsWith_iff: "startsWith s v \<longleftrightarrow> (\<exists>t. s = v @ t)"
  by (induction s v rule: startsWith.induct) auto

text \<open>\<open>jsIncludes\<close> decides the substring relation.\<close>

lemma jsIncludes_isSubstring: "jsIncludes s v \<longleftrightarrow> isSubstring v s"
proof (induction s)
  case Nil
  then show ?case by (auto simp: isSubstring_def)
next
  case (Cons x xs)
  show ?case
  proof
    assume "jsIncludes (x # xs) v"
    then consider "startsWith (x # xs) v" | "jsIncludes xs v" by auto
    then show "isSubstring v (x # xs)"
    proof cases
      case 1
      then obtain t where "x # xs = v @ t" by (auto simp: startsWith_iff)
      then have "x # xs = [] @ v @ t" by simp
      then show ?thesis unfolding isSubstring_def by blast
    next
      case 2
      with Cons obtain p t where "xs = p @ v @ t" by (auto simp: isSubstring_def)
      then have "x # xs = (x # p) @ v @ t" by simp
      then show ?thesis unfolding isSubstring_def by blast
    qed
  next
    assume "isSubstring v (x # xs)"
    then obtain p t where pt: "x # xs = p @ v @ t" by (auto simp: isSubstring_def)
    show "jsIncludes (x # xs) v"
    proof (cases p)
      case Nil
      with pt have "startsWith (x # xs) v" by (auto simp: startsWith_iff)
      then show ?thesis by simp
    next
      case (Cons a p')
      with pt have "xs = p' @ v @ t" by simp
      then have "isSubstring v xs" unfolding isSubstring_def by blast
      with Cons.IH show ?thesis by simp
    qed
  qed
qed

lemma isSubstring_code [code]: "isSubstring v s = jsIncludes s v"
  by (simp add: jsIncludes_isSubstring)

section \<open>filterMovies implements the Field Matching Rule\<close>

lemma matchesFilter_rule: "matchesFilter m e = fieldMatchingRule m (fst e) (snd e)"
  by (simp add: matchesFilter_def fieldMatchingRule_def containsIgnoringCase_def
      jsIncludes_isSubstring Let_def list_ex_iff split: option.splits)

lemma filterMovies_satisfiesAll: "filterMovies M F = filter (\<lambda>m. satisfiesAll m F) M"
  by (simp add: filterMovies_def satisfiesAll_def matchesFilter_rule cong: list.pred_cong)

lemma matchesFilter_empty: "matchesFilter m (f, []) = True"
  by (simp add: matchesFilter_def)

text \<open>
  Claim C3. For every movie list \<open>M\<close> and filter set \<open>F\<close>, \<open>filterMovies M F\<close> is the
  records of \<open>M\<close>, in the order of \<open>M\<close>, that satisfy every entry of \<open>F\<close> by the Field
  Matching Rule. In particular a record with genre \<open>Action|Crime|Drama\<close> passes the
  filters genre = \<open>crime\<close> and genre = \<open>dram\<close>.
\<close>

theorem filterMovies_field_matching_rule:
  "filterMovies M F = filter (\<lambda>m. \<forall>(f, v) \<in> set F. fieldMatchingRule m f v) M
   \<and> (genre r = ''Action|Crime|Drama'' \<longrightarrow>
        filterMovies [r] [(F_genre, ''crime'')] = [r]
        \<and> filterMovies [r] [(F_genre, ''dram'')] = [r])"
proof (intro conjI impI)
  show "filterMovies M F = filter (\<lambda>m. \<forall>(f, v) \<in> set F. fieldMatchingRule m f v) M"
    by (simp add: filterMovies_satisfiesAll satisfiesAll_def list_all_iff case_prod_beta)
next
  assume g: "genre r = ''Action|Crime|Drama''"
  have low: "toLowerCase ''Action|Crime|Drama'' = ''action|crime|drama''"
    "toLowerCase ''crime'' = ''crime''" "toLowerCase ''dram'' = ''dram''"
    by code_simp+
  have sp: "split (CHR ''|'') ''action|crime|drama'' = [''action'', ''crime'', ''drama'']"
    by code_simp
  have inc: "jsIncludes ''crime'' ''crime''" "jsIncludes ''drama'' ''dram''"
    by code_simp+
  show "filterMovies [r] [(F_genre, ''crime'')] = [r]"
    using inc by (simp add: filterMovies_def matchesFilter_def g low sp del: jsIncludes.simps)
  show "filterMovies [r] [(F_genre, ''dram'')] = [r]"
    using inc by (simp add: filterMovies_def matchesFilter_def g low sp del: jsIncludes.simps)
qed

theorem filterMovies_field_matching_rule_witness:
  "filterMovies [movieCrime, movieA] [(F_genre, ''crime''), (F_release_year, ''199'')]
     = filter (\<lambda>m. \<forall>(f, v) \<in> set [(F_genre, ''crime''), (F_release_year, ''199'')].
                  fieldMatchingRule m f v) [movieCrime, movieA]
   \<and> filterMovies [movieCrime, movieA] [(F_genre, ''crime''), (F_release_year, ''199'')]
     = [movieCrime]
   \<and> filterMovies [movieCrime] [(F_genre, ''crime'')] = [movieCrime]
   \<and> filterMovies [movieCrime] [(F_genre, ''dram'')] = [movieCrime]"
proof -
  have g: "genre movieCrime = ''Action|Crime|Drama''"
    by code_simp
  have v: "filterMovies [movieCrime, movieA] [(F_genre, ''crime''), (F_release_year, ''199'')]
     = [movieCrime]"
    by code_simp
  from filterMovies_field_matching_rule
         [of "[movieCrime, movieA]" "[(F_genre, ''crime''), (F_release_year, ''199'')]" movieCrime]
       g v
  show ?thesis by blast
qed

text \<open>
  Claim C7. For every movie list \<open>M\<close> and filter sets \<open>F1\<close>, \<open>F2\<close> with disjoint keys,
  filtering by \<open>F1\<close> and then by \<open>F2\<close> is filtering by the filter set that holds every
  entry of \<open>F1\<close> and every entry of \<open>F2\<close>.
\<close>

theorem filterMovies_compose:
  "fst ` set F1 \<inter> fst ` set F2 = {} \<Longrightarrow>
   filterMovies (filterMovies M F1) F2 = filterMovies M (F1 @ F2)"
  by (auto simp: filterMovies_def intro: filter_cong)

theorem filterMovies_compose_witness:
  "fst ` set [(F_genre, ''drama'')] \<inter> fst ` set [(F_actors, ''hanks'')] = {}
   \<and> filterMovies (filterMovies [movieCrime, movieBB, movieA] [(F_genre, ''drama'')])
        [(F_actors, ''hanks'')]
     = filterMovies [movieCrime, movieBB, movieA] ([(F_genre, ''drama'')] @ [(F_actors, ''hanks'')])
   \<and> filterMovies [movieCrime, movieBB, movieA] ([(F_genre, ''drama'')] @ [(F_actors, ''hanks'')])
     = [movieBB]"
proof -
  have d: "fst ` set [(F_genre, ''drama'')] \<inter> fst ` set [(F_actors, ''hanks'')] = {}"
    by simp
  have v: "filterMovies [movieCrime, movieBB, movieA]
             ([(F_genre, ''drama'')] @ [(F_actors, ''hanks'')]) = [movieBB]"
    by code_simp
  from filterMovies_compose [OF d, of "[movieCrime, movieBB, movieA]"] d v
  show ?thesis by blast
qed

lemma list_all_setKey_empty:
  "f \<notin> fst ` set F \<Longrightarrow>
   list_all (matchesFilter m) (setKey f [] F) = list_all (matchesFilter m) F"
  by (induction F) (auto simp: matchesFilter_empty)

text \<open>
  Claim C8. For every movie list \<open>M\<close>, filter set \<open>F\<close> and field \<open>f\<close>, the entries of
  \<open>F\<close> with the entry \<open>f = ""\<close> added give the same result of \<open>filterMovies\<close> as \<open>F\<close>:
  an entry with the empty string as value excludes no record. Where \<open>F\<close> has no entry
  for \<open>f\<close>, that is the assignment \<open>F[f] = ""\<close>.
\<close>

theorem empty_value_is_identity:
  "filterMovies M (F @ [(f, [])]) = filterMovies M F
   \<and> (f \<notin> fst ` set F \<longrightarrow> filterMovies M (setKey f [] F) = filterMovies M F)"
  by (simp add: filterMovies_def list_all_setKey_empty matchesFilter_empty)

theorem empty_value_is_identity_witness:
  "F_country \<notin> fst ` set [(F_genre, ''drama'')]
   \<and> filterMovies [movieCrime, movieBB, movieA] (setKey F_country [] [(F_genre, ''drama'')])
     = filterMovies [movieCrime, movieBB, movieA] [(F_genre, ''drama'')]
   \<and> filterMovies [movieCrime, movieBB, movieA] ([(F_genre, ''drama'')] @ [(F_country, [])])
     = filterMovies [movieCrime, movieBB, movieA] [(F_genre, ''drama'')]
   \<and> filterMovies [movieCrime, movieBB, movieA] [(F_genre, ''drama'')] = [movieCrime, movieBB]"
proof -
  have d: "F_country \<notin> fst ` set [(F_genre, ''drama'')]"
    by simp
  have v: "filterMovies [movieCrime, movieBB, movieA] [(F_genre, ''drama'')]
             = [movieCrime, movieBB]"
    by code_simp
  from empty_value_is_identity [of "[movieCrime, movieBB, movieA]" "[(F_genre, ''drama'')]" F_country]
       d v
  show ?thesis by blast
qed

section \<open>The exact-title shortcut\<close>

lemma find_first:
  "\<forall>x \<in> set pre. \<not> P x \<Longrightarrow> P m \<Longrightarrow> find P (pre @ m # post) = Some m"
  by (induction pre) auto

lemma searchMovies_exact:
  "find (\<lambda>movie. toLowerCase (movie_name movie) = toLowerCase q) M = Some m \<Longrightarrow>
   searchMovies M q = [m]"
  by (simp add: searchMovies_def)

text \<open>
  Claim C1. For every movie list and query, if some record's title equals the whole
  query ignoring case, \<open>searchMovies\<close> returns the one-element list of the first such
  record of the list, whatever else the query could mean and whatever the other records
  are.
\<close>

theorem exact_title_shortcut:
  assumes "\<exists>m \<in> set M. toLowerCase (movie_name m) = toLowerCase q"
  shows "\<exists>pre m post. M = pre @ m # post
           \<and> (\<forall>x \<in> set pre. toLowerCase (movie_name x) \<noteq> toLowerCase q)
           \<and> toLowerCase (movie_name m) = toLowerCase q
           \<and> searchMovies M q = [m]"
proof -
  from assms obtain pre m post where s: "M = pre @ m # post"
    and m: "toLowerCase (movie_name m) = toLowerCase q"
    and pre: "\<forall>x \<in> set pre. toLowerCase (movie_name x) \<noteq> toLowerCase q"
    using split_list_first_prop [of M "\<lambda>m. toLowerCase (movie_name m) = toLowerCase q"]
    by blast
  have "find (\<lambda>movie. toLowerCase (movie_name movie) = toLowerCase q) (pre @ m # post) = Some m"
    using m pre by (intro find_first) auto
  with s have "searchMovies M q = [m]"
    by (simp add: searchMovies_exact)
  with s m pre show ?thesis by blast
qed

theorem exact_title_shortcut_witness:
  "searchMovies [movieDreams, movieInception, movieINCEPTION] ''inception'' = [movieInception]"
proof -
  have 1: "\<exists>m \<in> set [movieDreams, movieInception, movieINCEPTION].
             toLowerCase (movie_name m) = toLowerCase ''inception''"
    by code_simp
  have 2: "toLowerCase (movie_name movieDreams) \<noteq> toLowerCase ''inception''"
    by code_simp
  have 3: "toLowerCase (movie_name movieInception) = toLowerCase ''inception''"
    by code_simp
  from exact_title_shortcut [OF 1] obtain pre m post where
    a: "[movieDreams, movieInception, movieINCEPTION] = pre @ m # post"
    and b: "\<forall>x \<in> set pre. toLowerCase (movie_name x) \<noteq> toLowerCase ''inception''"
    and c: "toLowerCase (movie_name m) = toLowerCase ''inception''"
    and d: "searchMovies [movieDreams, movieInception, movieINCEPTION] ''inception'' = [m]"
    by blast
  have "pre = [movieDreams]"
  proof (cases pre)
    case Nil
    with a c 2 show ?thesis by simp
  next
    case (Cons x xs)
    with a have x: "x = movieDreams" and r: "[movieInception, movieINCEPTION] = xs @ m # post"
      by simp_all
    show ?thesis
    proof (cases xs)
      case Nil
      with Cons x show ?thesis by simp
    next
      case (Cons y ys)
      with r have "y = movieInception" by simp
      with Cons \<open>pre = x # xs\<close> b 3 show ?thesis by simp
    qed
  qed
  with a have "m = movieInception" by simp
  with d show ?thesis by simp
qed

text \<open>
  Claim C5, as the code has it. For every movie list with a record titled \<open>Matrix\<close> and
  a record titled \<open>The Matrix Reloaded\<close>, the query \<open>Matrix\<close> takes the exact-title
  shortcut: \<open>searchMovies\<close> returns only the first record whose title is \<open>Matrix\<close>
  ignoring case, and no record titled \<open>The Matrix Reloaded\<close>.
\<close>

theorem matrix_query_exact_only:
  assumes "\<exists>m \<in> set M. movie_name m = ''Matrix''"
    and "\<exists>m \<in> set M. movie_name m = ''The Matrix Reloaded''"
  shows "\<exists>pre m post. M = pre @ m # post
           \<and> (\<forall>x \<in> set pre. toLowerCase (movie_name x) \<noteq> ''matrix'')
           \<and> toLowerCase (movie_name m) = ''matrix''
           \<and> searchMovies M ''Matrix'' = [m]
           \<and> (\<forall>r \<in> set (searchMovies M ''Matrix''). movie_name r \<noteq> ''The Matrix Reloaded'')"
proof -
  have low: "toLowerCase ''Matrix'' = ''matrix''" by code_simp
  have low2: "toLowerCase ''The Matrix Reloaded'' \<noteq> ''matrix''" by code_simp
  from assms(1) obtain m0 where "m0 \<in> set M" "movie_name m0 = ''Matrix''" by blast
  then have "m0 \<in> set M \<and> toLowerCase (movie_name m0) = ''matrix''"
    by (simp add: low)
  then have "\<exists>m \<in> set M. toLowerCase (movie_name m) = ''matrix''" by blast
  then obtain pre m post where s: "M = pre @ m # post"
    and m: "toLowerCase (movie_name m) = ''matrix''"
    and pre: "\<forall>x \<in> set pre. toLowerCase (movie_name x) \<noteq> ''matrix''"
    using split_list_first_prop [of M "\<lambda>m. toLowerCase (movie_name m) = ''matrix''"] by blast
  have "find (\<lambda>movie. toLowerCase (movie_name movie) = toLowerCase ''Matrix'') (pre @ m # post)
          = Some m"
    using m pre by (intro find_first) (auto simp: low)
  then have r: "searchMovies M ''Matrix'' = [m]"
    using s by (simp add: searchMovies_exact)
  moreover have "movie_name m \<noteq> ''The Matrix Reloaded''"
    using m low2 by auto
  ultimately show ?thesis using s m pre by auto
qed

theorem matrix_query_exact_only_witness:
  "searchMovies [movieReloaded, movieMatrix] ''Matrix'' = [movieMatrix]"
proof -
  have 1: "\<exists>m \<in> set [movieReloaded, movieMatrix]. movie_name m = ''Matrix''"
    by code_simp
  have 2: "\<exists>m \<in> set [movieReloaded, movieMatrix]. movie_name m = ''The Matrix Reloaded''"
    by code_simp
  have 3: "toLowerCase (movie_name movieReloaded) \<noteq> ''matrix''"
    by code_simp
  from matrix_query_exact_only [OF 1 2] obtain pre m post where
    a: "[movieReloaded, movieMatrix] = pre @ m # post"
    and b: "toLowerCase (movie_name m) = ''matrix''"
    and c: "searchMovies [movieReloaded, movieMatrix] ''Matrix'' = [m]" by blast
  from a have "m \<in> set [movieReloaded, movieMatrix]"
    by (metis in_set_conv_decomp)
  with b 3 have "m = movieMatrix" by auto
  with c show ?thesis by simp
qed

text \<open>
  The claim C5 as it is written fails: with both records in the list, the query
  \<open>Matrix\<close> returns the record titled \<open>Matrix\<close> alone.
\<close>

theorem matrix_query_counterexample:
  "movie_name movieMatrix = ''Matrix''
   \<and> movie_name movieReloaded = ''The Matrix Reloaded''
   \<and> searchMovies [movieMatrix, movieReloaded] ''Matrix'' = [movieMatrix]
   \<and> movieReloaded \<notin> set (searchMovies [movieMatrix, movieReloaded] ''Matrix'')"
  by code_simp

section \<open>The title branch\<close>

lemma set_insertBy: "set (insertBy cmp x ys) = insert x (set ys)"
  by (induction ys) auto

lemma mset_insertBy: "mset (insertBy cmp x ys) = add_mset x (mset ys)"
  by (induction ys) auto

lemma mset_jsSort: "mset (jsSort cmp xs) = mset xs"
  unfolding jsSort_def by (induction xs) (simp_all add: mset_insertBy)

lemma sorted_insertBy:
  assumes tot: "\<And>a b. cmp a b \<le> 0 \<or> cmp b a \<le> 0"
    and trans: "\<And>a b c. cmp a b \<le> 0 \<Longrightarrow> cmp b c \<le> 0 \<Longrightarrow> cmp a c \<le> 0"
    and "sorted_wrt (\<lambda>a b. cmp a b \<le> 0) ys"
  shows "sorted_wrt (\<lambda>a b. cmp a b \<le> 0) (insertBy cmp x ys)"
  using assms(3)
proof (induction ys)
  case Nil
  then show ?case by simp
next
  case (Cons y ys)
  show ?case
  proof (cases "cmp x y \<le> 0")
    case True
    with Cons.prems trans show ?thesis by auto
  next
    case False
    with tot have "cmp y x \<le> 0" by blast
    with False Cons show ?thesis by (auto simp: set_insertBy)
  qed
qed

lemma sorted_jsSort:
  assumes tot: "\<And>a b. cmp a b \<le> 0 \<or> cmp b a \<le> 0"
    and trans: "\<And>a b c. cmp a b \<le> 0 \<Longrightarrow> cmp b c \<le> 0 \<Longrightarrow> cmp a c \<le> 0"
  shows "sorted_wrt (\<lambda>a b. cmp a b \<le> 0) (jsSort cmp xs)"
  unfolding jsSort_def
  by (induction xs) (simp_all add: sorted_insertBy [OF tot trans])

text \<open>The comparison function is the ranking, and the ranking is a total preorder.\<close>

lemma relevance_le: "relevance t a b \<le> 0 \<longleftrightarrow> rankedBefore t a b"
  by (auto simp: relevance_def rankedBefore_def exactTitle_def Let_def)

lemma rankedBefore_total: "rankedBefore t a b \<or> rankedBefore t b a"
  by (auto simp: rankedBefore_def)

lemma rankedBefore_trans: "rankedBefore t a b \<Longrightarrow> rankedBefore t b c \<Longrightarrow> rankedBefore t a c"
  by (auto simp: rankedBefore_def split: if_splits)

lemma titleRanked_jsSort: "titleRanked t (jsSort (relevance t) xs)"
proof -
  have "sorted_wrt (\<lambda>a b. relevance t a b \<le> 0) (jsSort (relevance t) xs)"
    by (rule sorted_jsSort) (use rankedBefore_total rankedBefore_trans in \<open>auto simp: relevance_le\<close>)
  then show ?thesis by (simp add: titleRanked_def relevance_le)
qed

lemma searchMovies_title:
  assumes "find (\<lambda>movie. toLowerCase (movie_name movie) = toLowerCase q) M = None"
    and "parseUserQuery q = [(F_movie_name, t)]" and "t \<noteq> []"
  shows "searchMovies M q =
    jsSort (relevance t)
      (filter (\<lambda>movie. jsIncludes (toLowerCase (movie_name movie)) (toLowerCase t)) M)"
  using assms by (simp add: searchMovies_def getKey_def)

text \<open>
  Claim C4, as the code has it. For every movie list and query such that no title equals
  the query ignoring case and \<open>parseUserQuery\<close> gives exactly one entry, for the title
  field and with a value that is not empty, \<open>searchMovies\<close> returns every record whose
  title contains that value ignoring case, titles equal to the value first and, within
  the same class, shorter titles first.
\<close>

theorem title_only_ranking:
  assumes "\<forall>m \<in> set M. toLowerCase (movie_name m) \<noteq> toLowerCase q"
    and "parseUserQuery q = [(F_movie_name, t)]"
    and "t \<noteq> []"
  shows "mset (searchMovies M q) = mset (filter (\<lambda>m. containsIgnoringCase (movie_name m) t) M)
       \<and> titleRanked t (searchMovies M q)"
proof -
  have "find (\<lambda>movie. toLowerCase (movie_name movie) = toLowerCase q) M = None"
    using assms(1) by (simp add: find_None_iff)
  from searchMovies_title [OF this assms(2,3)] show ?thesis
    by (simp add: mset_jsSort titleRanked_jsSort containsIgnoringCase_def jsIncludes_isSubstring)
qed

theorem title_only_ranking_witness:
  "mset (searchMovies [movieReloaded, movieMatrix] ''movie Matrix'')
     = mset (filter (\<lambda>m. containsIgnoringCase (movie_name m) ''Matrix'')
               [movieReloaded, movieMatrix])
   \<and> titleRanked ''Matrix'' (searchMovies [movieReloaded, movieMatrix] ''movie Matrix'')
   \<and> searchMovies [movieReloaded, movieMatrix] ''movie Matrix'' = [movieMatrix, movieReloaded]"
proof -
  have 1: "\<forall>m \<in> set [movieReloaded, movieMatrix].
             toLowerCase (movie_name m) \<noteq> toLowerCase ''movie Matrix''"
    by code_simp
  have 2: "parseUserQuery ''movie Matrix'' = [(F_movie_name, ''Matrix'')]"
    by code_simp
  have 3: "searchMovies [movieReloaded, movieMatrix] ''movie Matrix''
             = [movieMatrix, movieReloaded]"
    by code_simp
  from title_only_ranking [OF 1 2] 3 show ?thesis by simp
qed

text \<open>
  The claim C4 as it is written fails when the one entry has the empty string as value:
  the query \<open>movie\<close> followed by a space gives the filter set \<open>{movie_name: ""}\<close>, the
  title branch is skipped, and the records come back in the order of the list, the
  longer title first.
\<close>

theorem title_only_empty_value_counterexample:
  "toLowerCase (movie_name movieBB) \<noteq> toLowerCase ''movie ''
   \<and> toLowerCase (movie_name movieA) \<noteq> toLowerCase ''movie ''
   \<and> parseUserQuery ''movie '' = [(F_movie_name, [])]
   \<and> searchMovies [movieBB, movieA] ''movie '' = [movieBB, movieA]
   \<and> \<not> titleRanked [] (searchMovies [movieBB, movieA] ''movie '')"
  by code_simp

section \<open>The fallback of parseUserQuery\<close>

lemma isSpace_lowerChar: "isSpace (lowerChar c) = isSpace c"
  by (simp add: isSpace_def lowerChar_def upperLetters_def lowerLetters_def)

lemma dropWhile_isSpace_lower:
  "dropWhile isSpace (toLowerCase s) = toLowerCase (dropWhile isSpace s)"
  by (induction s) (simp_all add: toLowerCase_def isSpace_lowerChar)

lemma toLowerCase_rev: "toLowerCase (rev s) = rev (toLowerCase s)"
  by (simp add: toLowerCase_def rev_map)

lemma toLowerCase_trim: "toLowerCase (trim s) = trim (toLowerCase s)"
  by (simp add: trim_def dropWhile_isSpace_lower toLowerCase_rev [symmetric])

lemma jsIncludes_dropWhile:
  assumes "g \<noteq> []" and "\<not> isSpace (hd g)"
  shows "jsIncludes (dropWhile isSpace s) g = jsIncludes s g"
proof (induction s)
  case Nil
  then show ?case by simp
next
  case (Cons x xs)
  from assms obtain y ys where g: "g = y # ys" and y: "\<not> isSpace y"
    by (cases g) auto
  show ?case
  proof (cases "isSpace x")
    case True
    with y have "\<not> startsWith (x # xs) g" by (auto simp: g)
    with True Cons show ?thesis by simp
  next
    case False
    then show ?thesis by simp
  qed
qed

lemma isSubstring_rev: "isSubstring (rev v) (rev s) = isSubstring v s"
proof
  assume "isSubstring (rev v) (rev s)"
  then obtain p t where "rev s = p @ rev v @ t" by (auto simp: isSubstring_def)
  then have "rev (rev s) = rev (p @ rev v @ t)" by simp
  then have "s = rev t @ v @ rev p" by simp
  then show "isSubstring v s" unfolding isSubstring_def by blast
next
  assume "isSubstring v s"
  then obtain p t where "s = p @ v @ t" by (auto simp: isSubstring_def)
  then have "rev s = rev t @ rev v @ rev p" by simp
  then show "isSubstring (rev v) (rev s)" unfolding isSubstring_def by blast
qed

lemma jsIncludes_rev: "jsIncludes (rev s) (rev v) = jsIncludes s v"
  by (simp add: jsIncludes_isSubstring isSubstring_rev)

lemma jsIncludes_trim:
  assumes "g \<noteq> []" and "\<forall>c \<in> set g. \<not> isSpace c"
  shows "jsIncludes (trim s) g = jsIncludes s g"
proof -
  have h: "\<not> isSpace (hd g)" and l: "\<not> isSpace (hd (rev g))" and r: "rev g \<noteq> []"
    using assms by (simp_all add: hd_rev)
  have "jsIncludes (trim s) g = jsIncludes (dropWhile isSpace (rev (dropWhile isSpace s))) (rev g)"
    unfolding trim_def by (rule jsIncludes_rev [of _ "rev g", simplified])
  also have "\<dots> = jsIncludes (rev (dropWhile isSpace s)) (rev g)"
    by (rule jsIncludes_dropWhile [OF r l])
  also have "\<dots> = jsIncludes (dropWhile isSpace s) g"
    by (rule jsIncludes_rev)
  also have "\<dots> = jsIncludes s g"
    by (rule jsIncludes_dropWhile [OF assms(1) h])
  finally show ?thesis .
qed

lemma commonGenres_plain:
  "\<forall>g \<in> set commonGenres. g \<noteq> [] \<and> (\<forall>c \<in> set g. \<not> isSpace c) \<and> toLowerCase g = g"
  by code_simp

lemma genre_test_untrimmed:
  "list_ex (\<lambda>g. jsIncludes (toLowerCase (trim q)) g) commonGenres
   \<longleftrightarrow> (\<exists>g \<in> set commonGenres. containsIgnoringCase q g)"
proof -
  have "jsIncludes (toLowerCase (trim q)) g = containsIgnoringCase q g"
    if "g \<in> set commonGenres" for g
  proof -
    from that commonGenres_plain
    have g: "g \<noteq> []" "\<forall>c \<in> set g. \<not> isSpace c" "toLowerCase g = g" by blast+
    have "jsIncludes (toLowerCase (trim q)) g = jsIncludes (toLowerCase q) g"
      by (simp only: toLowerCase_trim jsIncludes_trim [OF g(1,2)])
    then show ?thesis
      by (simp add: containsIgnoringCase_def g(3) jsIncludes_isSubstring)
  qed
  then show ?thesis by (auto simp: list_ex_iff)
qed

lemma extractors_none:
  assumes "extractValue genreRe q = None" "extractValue titleRe q = None"
    "extractValue directorRe q = None" "extractValue actorRe q = None"
    "extractValue yearRe q = None" "extractValue countryRe q = None"
    "extractValue languageRe q = None" "extractValue keywordRe q = None"
  shows "extractors q = []"
  using assms by (simp add: extractors_def applyExtractor_def Let_def)

text \<open>
  Claim C6. For every query for which none of the eight extractors stores a value and
  whose trimmed form is not empty, \<open>parseUserQuery\<close> returns a single entry whose value
  is the trimmed query: for the genre field if the query contains one of the nine genre
  words ignoring case, for the title field otherwise. In particular \<open>thriller\<close> is a
  genre filter and \<open>Whiplash\<close> a title filter.
\<close>

theorem fallback_classification:
  "(extractValue genreRe q = None \<and> extractValue titleRe q = None
      \<and> extractValue directorRe q = None \<and> extractValue actorRe q = None
      \<and> extractValue yearRe q = None \<and> extractValue countryRe q = None
      \<and> extractValue languageRe q = None \<and> extractValue keywordRe q = None
      \<and> trim q \<noteq> []
    \<longrightarrow> parseUserQuery q =
          [(if \<exists>g \<in> set commonGenres. containsIgnoringCase q g then F_genre else F_movie_name,
            trim q)])
   \<and> parseUserQuery ''thriller'' = [(F_genre, ''thriller'')]
   \<and> parseUserQuery ''Whiplash'' = [(F_movie_name, ''Whiplash'')]"
proof (intro conjI impI)
  assume a: "extractValue genreRe q = None \<and> extractValue titleRe q = None
      \<and> extractValue directorRe q = None \<and> extractValue actorRe q = None
      \<and> extractValue yearRe q = None \<and> extractValue countryRe q = None
      \<and> extractValue languageRe q = None \<and> extractValue keywordRe q = None
      \<and> trim q \<noteq> []"
  then have e: "extractors q = []" by (intro extractors_none) simp_all
  from a have t: "trim q \<noteq> []" by simp
  show "parseUserQuery q =
          [(if \<exists>g \<in> set commonGenres. containsIgnoringCase q g then F_genre else F_movie_name,
            trim q)]"
    by (simp add: parseUserQuery_def e t genre_test_untrimmed del: jsIncludes.simps)
next
  show "parseUserQuery ''thriller'' = [(F_genre, ''thriller'')]" by code_simp
  show "parseUserQuery ''Whiplash'' = [(F_movie_name, ''Whiplash'')]" by code_simp
qed

theorem fallback_classification_witness:
  "parseUserQuery '' Fantasy world '' = [(F_genre, ''Fantasy world'')]
   \<and> parseUserQuery ''Whiplash'' = [(F_movie_name, ''Whiplash'')]"
proof -
  have h: "extractValue genreRe '' Fantasy world '' = None \<and> extractValue titleRe '' Fantasy world '' = None
      \<and> extractValue directorRe '' Fantasy world '' = None \<and> extractValue actorRe '' Fantasy world '' = None
      \<and> extractValue yearRe '' Fantasy world '' = None \<and> extractValue countryRe '' Fantasy world '' = None
      \<and> extractValue languageRe '' Fantasy world '' = None \<and> extractValue keywordRe '' Fantasy world '' = None
      \<and> trim '' Fantasy world '' \<noteq> []"
    by code_simp
  have g: "\<exists>g \<in> set commonGenres. containsIgnoringCase '' Fantasy world '' g"
    by code_simp
  have t: "trim '' Fantasy world '' = ''Fantasy world''"
    by code_simp
  from fallback_classification [of "'' Fantasy world ''"] h g t show ?thesis
    by simp
qed

section \<open>Trigger words inside larger words\<close>

text \<open>
  Claim C10. The trigger words of the extractors match anywhere in the query, also
  inside a larger word: for the query \<open>Inception\<close> the \<open>in\<close> at its start fires the
  language extractor, and \<open>parseUserQuery\<close> returns the single entry language =
  \<open>ception\<close>, not the title filter for \<open>Inception\<close>.
\<close>

theorem substring_trigger_Inception:
  "extractValue languageRe ''Inception'' = Some ''ception''
   \<and> parseUserQuery ''Inception'' = [(F_language, ''ception'')]
   \<and> parseUserQuery ''Inception'' \<noteq> [(F_movie_name, ''Inception'')]"
  by code_simp

section \<open>The actor branch\<close>

subsection \<open>What the year pattern captures\<close>

lemma run_Seq_mem: "x \<in> set (run (Seq a b) st) \<longleftrightarrow> (\<exists>y \<in> set (run a st). x \<in> set (run b y))"
  by auto

lemma run_four_digits:
  assumes "(c', r) \<in> set (run (Grp (Seq (Cls isDigit) (Seq (Cls isDigit)
             (Seq (Cls isDigit) (Cls isDigit))))) (c, s))"
  shows "\<exists>g. c' = Some g \<and> length g = 4 \<and> (\<forall>x \<in> set g. isDigit x)"
proof -
  from assms obtain d1 d2 d3 d4 rest where s: "s = d1 # d2 # d3 # d4 # rest"
    and d: "isDigit d1" "isDigit d2" "isDigit d3" "isDigit d4"
    by (auto split: list.splits if_splits)
  with assms have "c' = Some [d1, d2, d3, d4]"
    by auto
  with d show ?thesis by auto
qed

lemma run_yearRe:
  assumes "(c', r) \<in> set (run yearRe st)"
  shows "\<exists>g. c' = Some g \<and> length g = 4 \<and> (\<forall>x \<in> set g. isDigit x)"
proof -
  from assms obtain y where
    "(c', r) \<in> set (run (Grp (Seq (Cls isDigit) (Seq (Cls isDigit)
             (Seq (Cls isDigit) (Cls isDigit))))) y)"
    unfolding yearRe_def run_Seq_mem by blast
  then show ?thesis by (cases y) (auto dest: run_four_digits)
qed

lemma jsMatch_run: "jsMatch re s = Some c \<Longrightarrow> \<exists>t r. (c, r) \<in> set (run re (None, t))"
proof (induction s)
  case Nil
  show ?case
  proof (cases "run re (None, [])")
    case Nil
    with Nil.prems show ?thesis by simp
  next
    case (Cons st sts)
    with Nil.prems have "st = (c, snd st)"
      by (cases st) simp
    with Cons have "(c, snd st) \<in> set (run re (None, []))"
      by (metis list.set_intros(1))
    then show ?thesis by blast
  qed
next
  case (Cons x xs)
  show ?case
  proof (cases "run re (None, x # xs)")
    case Nil
    with Cons.prems have "jsMatch re xs = Some c" by simp
    with Cons.IH show ?thesis by blast
  next
    case (Cons st sts)
    with Cons.prems have "st = (c, snd st)"
      by (cases st) simp
    with Cons have "(c, snd st) \<in> set (run re (None, x # xs))"
      by (metis list.set_intros(1))
    then show ?thesis by blast
  qed
qed

lemma isDigit_not_isSpace: "isDigit c \<Longrightarrow> \<not> isSpace c"
  by (auto simp: isDigit_def isSpace_def)

lemma trim_no_space:
  assumes "\<forall>x \<in> set g. \<not> isSpace x"
  shows "trim g = g"
proof -
  have d: "dropWhile isSpace h = h" if "\<forall>x \<in> set h. \<not> isSpace x" for h
    using that by (cases h) auto
  have "dropWhile isSpace g = g"
    using assms by (rule d)
  moreover have "dropWhile isSpace (rev g) = rev g"
    using assms by (intro d) simp
  ultimately show ?thesis by (simp add: trim_def)
qed

lemma extractValue_year_length:
  assumes "extractValue yearRe q = Some v"
  shows "length v = 4"
proof -
  from assms obtain g where m: "jsMatch yearRe q = Some (Some g)" and v: "v = trim g"
    by (auto simp: extractValue_def split: option.splits if_splits)
  from jsMatch_run [OF m] run_yearRe obtain g' where
    "Some g = Some g'" "length g' = 4" "\<forall>x \<in> set g'. isDigit x"
    by blast
  then have "length g = 4" "\<forall>x \<in> set g. \<not> isSpace x"
    by (auto dest: isDigit_not_isSpace)
  with v show ?thesis by (simp add: trim_no_space)
qed

subsection \<open>The entries of a parsed query\<close>

lemma set_setKey: "set (setKey k v fs) \<subseteq> insert (k, v) (set fs)"
  by (induction fs) (auto split: if_splits)

lemma applyExtractor_mem:
  "(k, v) \<in> set (applyExtractor re k' q fs) \<Longrightarrow>
   (k, v) \<in> set fs \<or> (k = k' \<and> extractValue re q = Some v)"
  using set_setKey [of k' _ fs] by (auto simp: applyExtractor_def split: option.splits)

lemma extractors_mem:
  assumes "(k, v) \<in> set (extractors q)"
  shows "(k = F_genre \<and> extractValue genreRe q = Some v)
       \<or> (k = F_movie_name \<and> extractValue titleRe q = Some v)
       \<or> (k = F_director_name \<and> extractValue directorRe q = Some v)
       \<or> (k = F_actors \<and> extractValue actorRe q = Some v)
       \<or> (k = F_release_year \<and> extractValue yearRe q = Some v)
       \<or> (k = F_country \<and> extractValue countryRe q = Some v)
       \<or> (k = F_language \<and> extractValue languageRe q = Some v)
       \<or> (k = F_plot_keyword \<and> extractValue keywordRe q = Some v)"
  using assms unfolding extractors_def Let_def
  by (auto dest!: applyExtractor_mem)

lemma parseUserQuery_cases:
  "parseUserQuery q = extractors q
   \<or> (extractors q = [] \<and> (parseUserQuery q = [(F_genre, trim q)]
        \<or> parseUserQuery q = [(F_movie_name, trim q)]))"
  by (auto simp: parseUserQuery_def Let_def)

lemma parseUserQuery_mem:
  assumes "(k, v) \<in> set (parseUserQuery q)"
  shows "k \<in> {F_genre, F_movie_name, F_director_name, F_country, F_language, F_plot_keyword}
       \<or> (k = F_actors \<and> extractValue actorRe q = Some v)
       \<or> (k = F_release_year \<and> extractValue yearRe q = Some v)"
  using assms parseUserQuery_cases [of q] extractors_mem [of k v q]
  by auto

subsection \<open>A falsy field value fails the rule as well\<close>

lemma isSubstring_length: "isSubstring v s \<Longrightarrow> length v \<le> length s"
  by (auto simp: isSubstring_def)

lemma split_length: "e \<in> set (split c s) \<Longrightarrow> length e \<le> length s"
proof (induction s arbitrary: e)
  case Nil
  then show ?case by simp
next
  case (Cons x xs)
  then show ?case
    by (cases "split c xs") (auto split: if_splits, fastforce+)
qed

lemma length_toLowerCase: "length (toLowerCase s) = length s"
  by (simp add: toLowerCase_def)

lemma fieldMatchingRule_short:
  assumes "getField m k = Some x" and "length (String x) < length v"
  shows "\<not> fieldMatchingRule m k v"
proof -
  from assms(2) have v: "v \<noteq> []" by auto
  have 1: "\<not> isSubstring (toLowerCase v) e" if "e \<in> set (split (CHR ''|'') (toLowerCase (String x)))" for e
    using split_length [OF that] isSubstring_length [of "toLowerCase v" e] assms(2)
    by (auto simp: length_toLowerCase)
  have 2: "\<not> containsIgnoringCase (String x) v"
    using isSubstring_length [of "toLowerCase v" "toLowerCase (String x)"] assms(2)
    by (auto simp: containsIgnoringCase_def length_toLowerCase)
  show ?thesis
    using v 1 2 by (auto simp: fieldMatchingRule_def assms(1) list_ex_iff)
qed

lemma matchesOtherFilter_rule:
  assumes "\<And>x. v \<noteq> [] \<Longrightarrow> getField m k = Some x \<Longrightarrow> falsy x \<Longrightarrow> length (String x) < length v"
  shows "matchesOtherFilter m (k, v) = fieldMatchingRule m k v"
proof (cases "v \<noteq> [] \<and> (\<exists>x. getField m k = Some x \<and> falsy x)")
  case True
  then obtain x where x: "v \<noteq> []" "getField m k = Some x" "falsy x" by blast
  from assms [OF this] fieldMatchingRule_short [OF x(2)] have "\<not> fieldMatchingRule m k v"
    by blast
  moreover have "\<not> matchesOtherFilter m (k, v)"
    using x by (simp add: matchesOtherFilter_def)
  ultimately show ?thesis by simp
next
  case False
  then show ?thesis
    by (auto simp: matchesOtherFilter_def fieldMatchingRule_def containsIgnoringCase_def
        jsIncludes_isSubstring list_ex_iff split: option.splits)
qed

lemma falsy_number_short: "falsy (JNumber n) \<Longrightarrow> length (String (JNumber n)) \<le> 3"
  by (cases n) (auto simp: showInt_def showNat.simps)

lemma parse_entry_rule:
  assumes "(k, v) \<in> set (parseUserQuery q)" and "k \<noteq> F_actors"
  shows "matchesOtherFilter m (k, v) = fieldMatchingRule m k v"
proof (rule matchesOtherFilter_rule)
  fix x assume v: "v \<noteq> []" and g: "getField m k = Some x" and f: "falsy x"
  from parseUserQuery_mem [OF assms(1)] assms(2)
  consider "k \<in> {F_genre, F_movie_name, F_director_name, F_country, F_language, F_plot_keyword}"
    | "k = F_release_year" "extractValue yearRe q = Some v" by blast
  then show "length (String x) < length v"
  proof cases
    case 1
    with g obtain s where "x = JString s" by auto
    with f v show ?thesis by simp
  next
    case 2
    with g obtain n where n: "x = JNumber n" by auto
    from 2 have "length v = 4" by (simp add: extractValue_year_length)
    with falsy_number_short [of n] f n show ?thesis by simp
  qed
qed

subsection \<open>The result of the actor branch\<close>

lemma set_deleteKey: "set (deleteKey k fs) = {e \<in> set fs. fst e \<noteq> k}"
  by (auto simp: deleteKey_def)

lemma others_rule:
  "list_all (matchesOtherFilter m) (deleteKey F_actors (parseUserQuery q))
   \<longleftrightarrow> (\<forall>(f, v) \<in> set (deleteKey F_actors (parseUserQuery q)). fieldMatchingRule m f v)"
proof -
  have "matchesOtherFilter m e = fieldMatchingRule m (fst e) (snd e)"
    if "e \<in> set (deleteKey F_actors (parseUserQuery q))" for e
  proof -
    from that have "(fst e, snd e) \<in> set (parseUserQuery q)" "fst e \<noteq> F_actors"
      by (simp_all add: set_deleteKey)
    from parse_entry_rule [OF this] show ?thesis by simp
  qed
  then show ?thesis
    by (auto simp: list_all_iff)
qed

lemma actors_entry_unique:
  assumes "getKey (parseUserQuery q) F_actors = Some a"
    and "(F_actors, v) \<in> set (parseUserQuery q)"
  shows "v = a"
proof -
  from assms(1) have "(F_actors, a) \<in> set (parseUserQuery q)"
    by (simp add: getKey_def map_of_SomeD)
  with assms(2) parseUserQuery_mem [of F_actors v q] parseUserQuery_mem [of F_actors a q]
  show ?thesis by auto
qed

lemma containsIgnoringCase_empty: "containsIgnoringCase s []"
proof -
  have "toLowerCase s = [] @ toLowerCase [] @ toLowerCase s"
    by (simp add: toLowerCase_def)
  then show ?thesis
    unfolding containsIgnoringCase_def isSubstring_def by blast
qed

lemma all_rule_empty_actor:
  assumes "getKey (parseUserQuery q) F_actors = Some []"
  shows "list_all (matchesFilter m) (parseUserQuery q)
   \<longleftrightarrow> (\<forall>(f, v) \<in> set (deleteKey F_actors (parseUserQuery q)). fieldMatchingRule m f v)"
proof -
  have "fieldMatchingRule m (fst e) (snd e)"
    if "e \<in> set (parseUserQuery q)" "fst e = F_actors" for e
  proof -
    from that have "(F_actors, snd e) \<in> set (parseUserQuery q)"
      by (metis prod.collapse)
    from actors_entry_unique [OF assms this] show ?thesis
      by (simp add: fieldMatchingRule_def)
  qed
  then have "fieldMatchingRule m (fst e) (snd e)"
    if "e \<in> set (parseUserQuery q)"
      "\<forall>e \<in> set (deleteKey F_actors (parseUserQuery q)). fieldMatchingRule m (fst e) (snd e)"
    for e
    using that by (cases "fst e = F_actors") (simp_all add: set_deleteKey)
  then show ?thesis
    by (auto simp: list_all_iff set_deleteKey matchesFilter_rule)
qed

lemma not_title_only:
  assumes "getKey fs F_actors = Some a"
  shows "\<not> ((case getKey fs F_movie_name of None \<Rightarrow> False | Some t \<Rightarrow> t \<noteq> []) \<and> length fs = 1)"
proof
  assume h: "(case getKey fs F_movie_name of None \<Rightarrow> False | Some t \<Rightarrow> t \<noteq> []) \<and> length fs = 1"
  then obtain e where fs: "fs = [e]" by (cases fs) auto
  with assms have "fst e = F_actors" by (cases e) (auto simp: getKey_def split: if_splits)
  with fs have "getKey fs F_movie_name = None" by (cases e) (auto simp: getKey_def)
  with h show False by simp
qed

text \<open>
  Claim C2. For every movie list and query such that no title equals the query ignoring
  case and \<open>parseUserQuery\<close> gives an entry for \<open>actors\<close>, \<open>searchMovies\<close> returns the
  records of the list that satisfy every other entry by the Field Matching Rule and
  whose \<open>actors\<close> field contains the value of the \<open>actors\<close> entry ignoring case.
\<close>

theorem actor_aware_search:
  assumes "\<forall>m \<in> set M. toLowerCase (movie_name m) \<noteq> toLowerCase q"
    and "getKey (parseUserQuery q) F_actors = Some a"
  shows "searchMovies M q =
     filter (\<lambda>m. (\<forall>(f, v) \<in> set (deleteKey F_actors (parseUserQuery q)). fieldMatchingRule m f v)
                 \<and> containsIgnoringCase (actors m) a) M"
proof -
  have none: "find (\<lambda>movie. toLowerCase (movie_name movie) = toLowerCase q) M = None"
    using assms(1) by (simp add: find_None_iff)
  show ?thesis
  proof (cases "a = []")
    case False
    then have "searchMovies M q =
      filter (\<lambda>movie. list_all (matchesOtherFilter movie) (deleteKey F_actors (parseUserQuery q))
                \<and> jsIncludes (toLowerCase (actors movie)) (toLowerCase a)) M"
      by (auto simp: searchMovies_def none assms(2) simp del: jsIncludes.simps intro!: filter_cong)
    then show ?thesis
      by (simp only: others_rule containsIgnoringCase_def jsIncludes_isSubstring)
  next
    case True
    with assms(2) have e: "getKey (parseUserQuery q) F_actors = Some []" by simp
    have "searchMovies M q = filterMovies M (parseUserQuery q)"
      using not_title_only [OF e] by (auto simp: searchMovies_def none e Let_def)
    then show ?thesis
      by (simp add: filterMovies_def all_rule_empty_actor [OF e] True containsIgnoringCase_empty)
  qed
qed

theorem actor_aware_search_witness:
  "searchMovies [movieMatrix, movieHanks, movieZero, movieBB] ''cast: hanks, year 2000''
     = filter (\<lambda>m. (\<forall>(f, v) \<in> set [(F_release_year, ''2000'')]. fieldMatchingRule m f v)
                 \<and> containsIgnoringCase (actors m) ''hanks'')
         [movieMatrix, movieHanks, movieZero, movieBB]
   \<and> searchMovies [movieMatrix, movieHanks, movieZero, movieBB] ''cast: hanks, year 2000''
     = [movieHanks]"
proof -
  have 1: "\<forall>m \<in> set [movieMatrix, movieHanks, movieZero, movieBB].
             toLowerCase (movie_name m) \<noteq> toLowerCase ''cast: hanks, year 2000''"
    by code_simp
  have p: "parseUserQuery ''cast: hanks, year 2000''
             = [(F_actors, ''hanks''), (F_release_year, ''2000'')]"
    by code_simp
  have 2: "getKey (parseUserQuery ''cast: hanks, year 2000'') F_actors = Some ''hanks''"
    by (simp add: p getKey_def)
  have d: "deleteKey F_actors (parseUserQuery ''cast: hanks, year 2000'')
             = [(F_release_year, ''2000'')]"
    by (simp add: p deleteKey_def)
  have v: "searchMovies [movieMatrix, movieHanks, movieZero, movieBB] ''cast: hanks, year 2000''
             = [movieHanks]"
    by code_simp
  from actor_aware_search [OF 1 2] d v show ?thesis
    by simp
qed

end
